theory Spec2Isabelle
  imports Complex_Main "HOL-Library.AList"
begin

section \<open>Values handed over by a value accessor\<close>

text \<open>
  The monitors compare, store and serialise whatever JavaScript value an accessor returns.
  \<open>jsval\<close> is the closed universe of those values: the primitives, \<open>null\<close> and
  \<open>undefined\<close>, a bn.js big integer (\<open>JBN\<close>, identified with the integer it holds) and
  a structured value (\<open>JObj\<close>): its own enumerable properties, in the order of
  \<open>Object.keys\<close>, each key occurring once. An array is the structured value whose keys
  are its indices; a decoded call result carries every field twice, by position and by name.

  A number is a double: \<open>NaN\<close>, an infinity, or a finite value (both zeros are
  \<open>Finite 0\<close>, which \<open>===\<close> does not tell apart).
\<close>

datatype jsnumber = NaN | PosInfinity | NegInfinity | Finite rat

datatype jsval =
    JUndefined
  | JNull
  | JBool bool
  | JNum jsnumber
  | JStr string
  | JBN int
  | JObj "(string \<times> jsval) list"

text \<open>A receipt of a mined transaction, as far as the monitors read it.\<close>

record receipt =
  gasUsed :: jsval

text \<open>
  Every \<open>throw\<close>, rejected promise and \<open>assert.fail\<close> of the source is a value of
  \<open>error\<close>:
  \<^item> \<open>TypeMismatch\<close>, \<open>UnsupportedComparison\<close>: the two errors of \<open>dynamicEquals\<close>,
    with the \<open>typeof\<close> tags their messages print;
  \<^item> \<open>NotBN\<close>: the error of the base monitor's \<open>equals\<close>;
  \<^item> \<open>AssertionError\<close>: \<open>assert.fail\<close> in \<open>StateMonitor.expect\<close>;
  \<^item> \<open>Error\<close>: a \<open>new Error(message)\<close> whose message is computed here in full;
  \<^item> \<open>CheckFailed\<close>: "Failed to check value of type.key: cause" of the aggregator;
  \<^item> \<open>ExceptionsOccurred\<close>: the combined error of \<open>assertNoExceptions\<close>, with the
    queued entries it enumerates;
  \<^item> \<open>TypeError\<close>: the runtime's own error (a property of \<open>null\<close> or
    \<open>undefined\<close>, \<open>Object.keys(null)\<close>, calling a method a value does not have);
  \<^item> \<open>Rejected\<close>: a failure raised by a collaborator (the ledger client, the executed
    operation), which may carry the receipt of a mined but reverted transaction;
  \<^item> \<open>OutsideModel\<close>: the source goes on into the fields bn.js keeps inside a big
    integer, or into members a primitive inherits; \<open>jsval\<close> does not hold those.
\<close>

datatype failure =
    TypeMismatchInExpectation string string
  | ValidatingState jsval jsval

datatype error =
    TypeMismatch string string
  | UnsupportedComparison string
  | NotBN string string
  | AssertionError failure
  | Error string
  | CheckFailed string string error
  | ExceptionsOccurred "error list"
  | TypeError
  | Rejected string "receipt option"
  | OutsideModel

fun typeof :: "jsval \<Rightarrow> string" where
  "typeof JUndefined = ''undefined''"
| "typeof JNull = ''object''"
| "typeof (JBool _) = ''boolean''"
| "typeof (JNum _) = ''number''"
| "typeof (JStr _) = ''string''"
| "typeof (JBN _) = ''object''"
| "typeof (JObj _) = ''object''"

fun isBN :: "jsval \<Rightarrow> bool" where
  "isBN (JBN _) = True"
| "isBN _ = False"

text \<open>\<open>a === b\<close> on two primitives of one type.\<close>

fun strictEquals :: "jsval \<Rightarrow> jsval \<Rightarrow> bool" where
  "strictEquals (JNum x) (JNum y) = (x \<noteq> NaN \<and> x = y)"
| "strictEquals a b = (a = b)"

text \<open>\<open>x == null\<close>, \<open>x == undefined\<close>: loose equality holds for exactly these two.\<close>

fun nullish :: "jsval \<Rightarrow> bool" where
  "nullish JUndefined = True"
| "nullish JNull = True"
| "nullish _ = False"

section \<open>Structural equality (utils.js)\<close>

text \<open>\<open>["0", "1", "2", "3"].includes(key)\<close>\<close>

definition positional :: "string \<Rightarrow> bool" where
  "positional key = (key \<in> set [''0'', ''1'', ''2'', ''3''])"

text \<open>
  \<open>dynamicEquals\<close> follows the source branch by branch; \<open>walk\<close> is its loop
  \<open>for (let key of keysA)\<close>, run over the entries of \<open>a\<close> (so that \<open>a[key]\<close> is the
  entry's value), with \<open>b[key]\<close> looked up in the entries of \<open>b\<close>.
  In the object branch \<open>Object.keys(a)\<close> is evaluated before \<open>Object.keys(b)\<close>, and
  either throws on \<open>null\<close>. When exactly one side is a big integer the walk would run over
  the fields of the bn.js instance.
\<close>

fun dynamicEquals :: "jsval \<Rightarrow> jsval \<Rightarrow> error + bool"
  and walk :: "(string \<times> jsval) list \<Rightarrow> (string \<times> jsval) list \<Rightarrow> error + bool" where
  "dynamicEquals a b =
     (if typeof a \<noteq> typeof b then Inl (TypeMismatch (typeof a) (typeof b))
      else case (a, b) of
        (JBN x, JBN y) \<Rightarrow> Inr (x = y)
      | _ \<Rightarrow>
        if typeof a = ''string'' \<or> typeof a = ''number'' \<or> typeof a = ''boolean''
        then Inr (strictEquals a b)
        else if typeof a = ''object'' then
          (case a of
             JObj keysA \<Rightarrow>
               (case b of
                  JObj keysB \<Rightarrow>
                    if length keysA \<noteq> length keysB then Inr False else walk keysA keysB
                | JNull \<Rightarrow> Inl TypeError
                | _ \<Rightarrow> Inl OutsideModel)
           | JNull \<Rightarrow> Inl TypeError
           | _ \<Rightarrow> (case b of JNull \<Rightarrow> Inl TypeError | _ \<Rightarrow> Inl OutsideModel))
        else Inl (UnsupportedComparison (typeof a)))"
| "walk [] keysB = Inr True"
| "walk ((key, v) # rest) keysB =
     (if positional key then walk rest keysB
      else case map_of keysB key of
        None \<Rightarrow> Inr False
      | Some w \<Rightarrow>
          (case dynamicEquals v w of
             Inl e \<Rightarrow> Inl e
           | Inr same \<Rightarrow> if same then walk rest keysB else Inr False))"

declare dynamicEquals.simps(1) [simp del]

section \<open>The host: ledger client and runtime library\<close>

text \<open>
  What the monitors call but this repository does not define is a parameter: the web3
  client's reads of the ledger \<open>'w\<close> (\<open>web3.eth.getBalance\<close>, \<open>web3.eth.getGasPrice\<close>),
  \<open>web3.utils.toBN\<close>, a value's own \<open>toString()\<close> and \<open>JSON.stringify\<close> (as the text a
  template literal prints). A read does not change the ledger.
\<close>

record 'w host =
  getBalance :: "string \<Rightarrow> 'w \<Rightarrow> error + jsval"
  getGasPrice :: "'w \<Rightarrow> error + jsval"
  toBN :: "jsval \<Rightarrow> error + int"
  toString :: "jsval \<Rightarrow> error + string"
  stringify :: "jsval \<Rightarrow> string"

text \<open>\<open>asBN = (num) => web3.utils.isBN(num) ? num : web3.utils.toBN(num)\<close>\<close>

definition asBN :: "'w host \<Rightarrow> jsval \<Rightarrow> error + jsval" where
  "asBN H num =
     (if isBN num then Inr num
      else case toBN H num of Inl e \<Rightarrow> Inl e | Inr n \<Rightarrow> Inr (JBN n))"

text \<open>
  \<open>gasForReceipt\<close>: \<open>toBN(receipt.gasUsed).mul(toBN(await getGasPrice()))\<close>; reading
  \<open>gasUsed\<close> of a receipt that is not there is a \<open>TypeError\<close>.
\<close>

definition gasForReceipt :: "'w host \<Rightarrow> receipt option \<Rightarrow> 'w \<Rightarrow> error + int" where
  "gasForReceipt H rcpt w =
     (case rcpt of
        None \<Rightarrow> Inl TypeError
      | Some r \<Rightarrow>
          (case toBN H (gasUsed r) of
             Inl e \<Rightarrow> Inl e
           | Inr used \<Rightarrow>
               (case getGasPrice H w of
                  Inl e \<Rightarrow> Inl e
                | Inr price \<Rightarrow>
                    (case toBN H price of
                       Inl e \<Rightarrow> Inl e
                     | Inr p \<Rightarrow> Inr (used * p)))))"

text \<open>The result of an executed operation: \<open>result.receipt\<close>.\<close>

record txresult =
  receipt :: "receipt option"

definition gasForCall :: "'w host \<Rightarrow> txresult \<Rightarrow> 'w \<Rightarrow> error + int" where
  "gasForCall H result w = gasForReceipt H (receipt result) w"

section \<open>Monitors (monitors/monitor.js and its subclasses)\<close>

text \<open>
  The three concrete classes share one record; \<open>kind\<close> says which class the object is,
  and a call of \<open>this.method\<close> dispatches on it. \<open>expectedGas\<close> (\<open>null\<close> or a big
  integer) is the wallet monitor's, \<open>keypath\<close> (\<open>null\<close> or a string) the contract
  monitor's. \<open>accessor\<close> is the read the object was built around:
  \<open>contractMethod(...params)\<close> of a contract monitor, \<open>contract.balanceOf.call(address)\<close>
  of a token monitor; a wallet monitor reads \<open>web3.eth.getBalance(address)\<close>.
\<close>

datatype mkind = EthWallet | Erc20Balance | ContractField

record 'w monitor =
  kind :: mkind
  lastValue :: jsval
  dirty :: bool
  dirtyValue :: jsval
  address :: string
  expectedGas :: "int option"
  accessor :: "'w \<Rightarrow> error + jsval"
  keypath :: "string option"

text \<open>\<open>type()\<close>\<close>

fun monitor_type :: "mkind \<Rightarrow> string" where
  "monitor_type EthWallet = ''eth-wallet''"
| "monitor_type Erc20Balance = ''erc20-balance''"
| "monitor_type ContractField = ''contract-state''"

subsection \<open>Keypath resolution (ContractState)\<close>

text \<open>\<open>keypath.split(".")\<close>: the pieces between the dots, one more than there are dots.\<close>

fun split_on :: "char \<Rightarrow> string \<Rightarrow> string list" where
  "split_on sep [] = [[]]"
| "split_on sep (c # cs) =
     (if c = sep then [] # split_on sep cs
      else case split_on sep cs of
        [] \<Rightarrow> [[c]]
      | part # parts \<Rightarrow> (c # part) # parts)"

text \<open>
  \<open>current[part]\<close>: an own property of a structured value, \<open>undefined\<close> when it has
  none of that name; a \<open>TypeError\<close> on \<open>null\<close> and \<open>undefined\<close>.
\<close>

fun getProp :: "jsval \<Rightarrow> string \<Rightarrow> error + jsval" where
  "getProp (JObj props) part =
     (case map_of props part of None \<Rightarrow> Inr JUndefined | Some v \<Rightarrow> Inr v)"
| "getProp JNull part = Inl TypeError"
| "getProp JUndefined part = Inl TypeError"
| "getProp _ part = Inl OutsideModel"

fun descend :: "string \<Rightarrow> string list \<Rightarrow> jsval \<Rightarrow> error + jsval" where
  "descend kp [] current = Inr current"
| "descend kp (part # parts) current =
     (case getProp current part of
        Inl e \<Rightarrow> Inl e
      | Inr next \<Rightarrow>
          if nullish next
          then Inl (Error (''Error resolving keypath('' @ kp @ '') - Got undefined at .'' @ part))
          else descend kp parts next)"

definition resolveKeypath :: "string \<Rightarrow> jsval \<Rightarrow> error + jsval" where
  "resolveKeypath kp v = descend kp (split_on CHR ''.'' kp) v"

subsection \<open>fetchValue, equals, serializeValue, adjustExpectation\<close>

definition ContractState_fetchValue :: "'w monitor \<Rightarrow> 'w \<Rightarrow> error + jsval" where
  "ContractState_fetchValue m w =
     (case accessor m w of
        Inl e \<Rightarrow> Inl e
      | Inr val \<Rightarrow>
          if typeof val = ''object'' \<and> \<not> isBN val then
            (case keypath m of
               None \<Rightarrow>
                 Inl (Error ''Expected non-null keypath for ContractMonitor with on-chain object.'')
             | Some kp \<Rightarrow>
                 if typeof val \<noteq> ''object''
                 then Inl (Error (''Expected object type for keypath('' @ [CHR 0x27] @ kp @ [CHR 0x27]
                        @ '') - on-chain value was '' @ typeof val))
                 else resolveKeypath kp val)
          else Inr val)"

definition fetchValue :: "'w host \<Rightarrow> 'w monitor \<Rightarrow> 'w \<Rightarrow> error + jsval" where
  "fetchValue H m w =
     (case kind m of
        EthWallet \<Rightarrow>
          (case getBalance H (address m) w of
             Inl e \<Rightarrow> Inl e
           | Inr bal \<Rightarrow> (case toBN H bal of Inl e \<Rightarrow> Inl e | Inr n \<Rightarrow> Inr (JBN n)))
      | Erc20Balance \<Rightarrow>
          (case accessor m w of
             Inl e \<Rightarrow> Inl e
           | Inr val \<Rightarrow> (case toBN H val of Inl e \<Rightarrow> Inl e | Inr n \<Rightarrow> Inr (JBN n)))
      | ContractField \<Rightarrow> ContractState_fetchValue m w)"

definition StateMonitor_equals :: "jsval \<Rightarrow> jsval \<Rightarrow> error + bool" where
  "StateMonitor_equals a b =
     (case (a, b) of
        (JBN x, JBN y) \<Rightarrow> Inr (x = y)
      | _ \<Rightarrow> Inl (NotBN (typeof a) (typeof b)))"

definition equals :: "'w monitor \<Rightarrow> jsval \<Rightarrow> jsval \<Rightarrow> error + bool" where
  "equals m a b =
     (case kind m of
        ContractField \<Rightarrow> dynamicEquals a b
      | _ \<Rightarrow> StateMonitor_equals a b)"

definition serializeValue :: "'w host \<Rightarrow> 'w monitor \<Rightarrow> jsval \<Rightarrow> error + string" where
  "serializeValue H m v =
     (case kind m of
        ContractField \<Rightarrow> Inr (stringify H v)
      | _ \<Rightarrow> toString H v)"

text \<open>
  \<open>ETHAddress.adjustExpectation\<close>:
  \<open>this.expectedGas != null ? value.sub(this.expectedGas) : value\<close>; the base class
  returns \<open>value\<close>. A value without \<open>sub\<close> makes the call a \<open>TypeError\<close>.
\<close>

definition adjustExpectation :: "'w monitor \<Rightarrow> jsval \<Rightarrow> error + jsval" where
  "adjustExpectation m v =
     (case kind m of
        EthWallet \<Rightarrow>
          (case expectedGas m of
             None \<Rightarrow> Inr v
           | Some gas \<Rightarrow> (case v of JBN n \<Rightarrow> Inr (JBN (n - gas)) | _ \<Rightarrow> Inl TypeError))
      | _ \<Rightarrow> Inr v)"

subsection \<open>reset, checkDirty, expect\<close>

text \<open>
  \<open>StateMonitor.reset(toValue = null)\<close>; an omitted argument is \<open>JUndefined\<close>.
  \<open>ETHAddress.reset()\<close> takes no argument: it calls \<open>super.reset()\<close> and then clears
  \<open>expectedGas\<close>. A fetch that fails leaves the object as it was.
\<close>

definition StateMonitor_reset :: "'w host \<Rightarrow> 'w monitor \<Rightarrow> jsval \<Rightarrow> 'w \<Rightarrow> error + 'w monitor" where
  "StateMonitor_reset H m toValue w =
     (if \<not> nullish toValue
      then Inr (m\<lparr>lastValue := toValue, dirty := False, dirtyValue := JBool False\<rparr>)
      else case fetchValue H m w of
        Inl e \<Rightarrow> Inl e
      | Inr v \<Rightarrow> Inr (m\<lparr>lastValue := v, dirty := False, dirtyValue := JBool False\<rparr>))"

definition ETHAddress_reset :: "'w host \<Rightarrow> 'w monitor \<Rightarrow> 'w \<Rightarrow> error + 'w monitor" where
  "ETHAddress_reset H m w =
     (case StateMonitor_reset H m JUndefined w of
        Inl e \<Rightarrow> Inl e
      | Inr m' \<Rightarrow> Inr (m'\<lparr>expectedGas := None\<rparr>))"

definition reset :: "'w host \<Rightarrow> 'w monitor \<Rightarrow> jsval \<Rightarrow> 'w \<Rightarrow> error + 'w monitor" where
  "reset H m toValue w =
     (case kind m of
        EthWallet \<Rightarrow> ETHAddress_reset H m w
      | _ \<Rightarrow> StateMonitor_reset H m toValue w)"

definition checkDirty :: "'w host \<Rightarrow> 'w monitor \<Rightarrow> 'w \<Rightarrow> error + bool \<times> 'w monitor" where
  "checkDirty H m w =
     (case fetchValue H m w of
        Inl e \<Rightarrow> Inl e
      | Inr v \<Rightarrow>
          (case equals m v (lastValue m) of
             Inl e \<Rightarrow> Inl e
           | Inr same \<Rightarrow>
               let isDirty = \<not> same; m' = m\<lparr>dirty := isDirty\<rparr>
               in Inr (isDirty, if isDirty then m'\<lparr>dirtyValue := v\<rparr> else m')))"

text \<open>
  \<open>StateMonitor.expect(value, message)\<close>. A number on either side is cast with
  \<open>asBN\<close>; the last step is \<open>this.reset(actualValue)\<close>.
\<close>

definition castNumber :: "'w host \<Rightarrow> jsval \<Rightarrow> error + jsval" where
  "castNumber H v = (if typeof v = ''number'' then asBN H v else Inr v)"

definition StateMonitor_expect :: "'w host \<Rightarrow> 'w monitor \<Rightarrow> jsval \<Rightarrow> 'w \<Rightarrow> error + 'w monitor" where
  "StateMonitor_expect H m v w =
     (case fetchValue H m w of
        Inl e \<Rightarrow> Inl e
      | Inr fetched \<Rightarrow>
     (case adjustExpectation m v of
        Inl e \<Rightarrow> Inl e
      | Inr adjusted \<Rightarrow>
     (case castNumber H fetched of
        Inl e \<Rightarrow> Inl e
      | Inr actualValue \<Rightarrow>
     (case castNumber H adjusted of
        Inl e \<Rightarrow> Inl e
      | Inr expectedValue \<Rightarrow>
          if typeof actualValue \<noteq> typeof expectedValue
          then Inl (AssertionError
                 (TypeMismatchInExpectation (typeof actualValue) (typeof expectedValue)))
          else
            (case equals m actualValue expectedValue of
               Inl e \<Rightarrow> Inl e
             | Inr same \<Rightarrow>
                 if \<not> same then Inl (AssertionError (ValidatingState expectedValue actualValue))
                 else reset H m actualValue w)))))"

text \<open>
  \<open>ETHAddress.expect\<close> and \<open>ERC20AddressBalance.expect\<close> cast the value with
  \<open>asBN\<close> and call \<open>super.expect\<close>; a contract monitor inherits the base method.
\<close>

definition expect :: "'w host \<Rightarrow> 'w monitor \<Rightarrow> jsval \<Rightarrow> 'w \<Rightarrow> error + 'w monitor" where
  "expect H m v w =
     (case kind m of
        ContractField \<Rightarrow> StateMonitor_expect H m v w
      | _ \<Rightarrow> (case asBN H v of Inl e \<Rightarrow> Inl e | Inr bn \<Rightarrow> StateMonitor_expect H m bn w))"

text \<open>
  \<open>expectFallsBy(dropBy, message)\<close>:
  \<open>dropBy = asBN(dropBy); await this.expect(this.lastValue.sub(dropBy), message)\<close>.
\<close>

definition expectFallsBy :: "'w host \<Rightarrow> 'w monitor \<Rightarrow> jsval \<Rightarrow> 'w \<Rightarrow> error + 'w monitor" where
  "expectFallsBy H m dropBy w =
     (case asBN H dropBy of
        Inl e \<Rightarrow> Inl e
      | Inr d \<Rightarrow>
          (case (lastValue m, d) of
             (JBN n, JBN k) \<Rightarrow> expect H m (JBN (n - k)) w
           | _ \<Rightarrow> Inl TypeError))"

text \<open>
  \<open>ETHAddress.expectGas(gasAmount)\<close>: \<open>expectedGas\<close> starts from
  \<open>web3.utils.toBN(0)\<close> when it is \<open>null\<close>.
\<close>

definition expectGas :: "'w host \<Rightarrow> 'w monitor \<Rightarrow> int \<Rightarrow> error + 'w monitor" where
  "expectGas H m gasAmount =
     (case expectedGas m of
        None \<Rightarrow>
          (case toBN H (JNum (Finite 0)) of
             Inl e \<Rightarrow> Inl e
           | Inr zero \<Rightarrow> Inr (m\<lparr>expectedGas := Some (zero + gasAmount)\<rparr>))
      | Some gas \<Rightarrow> Inr (m\<lparr>expectedGas := Some (gas + gasAmount)\<rparr>))"

section \<open>The aggregator (monitors/state.js)\<close>

text \<open>
  A group is a JavaScript object from names to monitors: its entries in the order of
  \<open>Object.keys\<close>, each name once. \<open>this.all = [wallets, erc20, contract]\<close>.
\<close>

type_synonym 'w group = "(string \<times> 'w monitor) list"

record 'w dappstate =
  wallets :: "'w group"
  erc20 :: "'w group"
  contract :: "'w group"
  exceptions :: "error list"

text \<open>
  The entry pushed for a dirty monitor:
  \<open>new Error(`${monitor.type()}.${key}: un-asserted state change detected (${last}) => (${dirty})`)\<close>
  with \<open>last = monitor.serializeValue(monitor.lastValue)\<close> and
  \<open>dirty = monitor.serializeValue(monitor.dirtyValue)\<close>.
\<close>

definition diagnostic :: "'w host \<Rightarrow> string \<Rightarrow> 'w monitor \<Rightarrow> error + error" where
  "diagnostic H key m =
     (case serializeValue H m (lastValue m) of
        Inl e \<Rightarrow> Inl e
      | Inr lastText \<Rightarrow>
          (case serializeValue H m (dirtyValue m) of
             Inl e \<Rightarrow> Inl e
           | Inr dirtyText \<Rightarrow>
               Inr (Error (monitor_type (kind m) @ ''.'' @ key
                 @ '': un-asserted state change detected ('' @ lastText @ '') => ('' @ dirtyText @ '')''))))"

text \<open>
  \<open>_checkDirty(stateEntries)\<close>. \<open>settle\<close> is one element of
  \<open>keys.map(srcKey => stateEntries[srcKey].checkDirty().catch(e => e))\<close>: the monitor's
  check, its failure kept as a value. The reads do not change the ledger, so every
  monitor's check sees the same ledger and the monitors do not influence one another;
  \<open>settled_monitor\<close> is the monitor object after its check. \<open>report\<close> is the loop over
  \<open>dirty[i]\<close>: it throws at the first failed check and pushes an entry for every
  monitor whose check returned true.
\<close>

definition settle ::
    "'w host \<Rightarrow> 'w \<Rightarrow> string \<times> 'w monitor \<Rightarrow> string \<times> 'w monitor \<times> (error + bool \<times> 'w monitor)" where
  "settle H w entry = (fst entry, snd entry, checkDirty H (snd entry) w)"

definition settled_monitor ::
    "string \<times> 'w monitor \<times> (error + bool \<times> 'w monitor) \<Rightarrow> string \<times> 'w monitor" where
  "settled_monitor t =
     (case t of (key, m, r) \<Rightarrow> (key, case r of Inl e \<Rightarrow> m | Inr (d, m') \<Rightarrow> m'))"

fun report ::
    "'w host \<Rightarrow> (string \<times> 'w monitor \<times> (error + bool \<times> 'w monitor)) list \<Rightarrow> error list
       \<Rightarrow> error option \<times> error list" where
  "report H [] excs = (None, excs)"
| "report H ((key, m, r) # rest) excs =
     (case r of
        Inl e \<Rightarrow> (Some (CheckFailed (monitor_type (kind m)) key e), excs)
      | Inr (isDirty, m') \<Rightarrow>
          if isDirty then
            (case diagnostic H key m' of
               Inl e \<Rightarrow> (Some e, excs)
             | Inr entry \<Rightarrow> report H rest (excs @ [entry]))
          else report H rest excs)"

definition DappState_checkDirty_group ::
    "'w host \<Rightarrow> 'w group \<Rightarrow> 'w \<Rightarrow> error list \<Rightarrow> error option \<times> 'w group \<times> error list" where
  "DappState_checkDirty_group H stateEntries w excs =
     (let settled = map (settle H w) stateEntries;
          (failed, excs') = report H settled excs
      in (failed, map settled_monitor settled, excs'))"

text \<open>
  \<open>checkDirty()\<close>: \<open>await Promise.all(this.all.map((group) => this._checkDirty(group)))\<close>.
  The three group checks are started together and each runs to its end whatever the
  others do; the schedule fixed here lets them report in the order of \<open>this.all\<close>. The
  call is rejected (\<open>Some\<close>) with the error of the first group that threw.
\<close>

definition first_failure :: "error option \<Rightarrow> error option \<Rightarrow> error option" where
  "first_failure x y = (case x of None \<Rightarrow> y | Some e \<Rightarrow> Some e)"

definition DappState_checkDirty ::
    "'w host \<Rightarrow> 'w dappstate \<Rightarrow> 'w \<Rightarrow> error option \<times> 'w dappstate" where
  "DappState_checkDirty H s w =
     (let (f1, ws, e1) = DappState_checkDirty_group H (wallets s) w (exceptions s);
          (f2, ts, e2) = DappState_checkDirty_group H (erc20 s) w e1;
          (f3, cs, e3) = DappState_checkDirty_group H (contract s) w e2
      in (first_failure f1 (first_failure f2 f3),
          s\<lparr>wallets := ws, erc20 := ts, contract := cs, exceptions := e3\<rparr>))"

definition assertNoExceptions :: "'w dappstate \<Rightarrow> error + unit" where
  "assertNoExceptions s =
     (if exceptions s \<noteq> [] then Inl (ExceptionsOccurred (exceptions s)) else Inr ())"

section \<open>Calls through a wallet monitor (monitors/ethwallet.js)\<close>

text \<open>
  The trailing options argument: when the last parameter is an object whose \<open>from\<close> is
  \<open>undefined\<close> or \<open>null\<close>, \<open>from\<close> is set on it; otherwise \<open>{from: this.address}\<close>
  is pushed. Reading \<open>from\<close> of \<open>null\<close> is a \<open>TypeError\<close>. A big integer in last
  place is an object without \<open>from\<close>: the instance itself receives the property, which
  \<open>JBN\<close> does not show, and nothing is pushed.
\<close>

definition withFrom :: "string \<Rightarrow> jsval list \<Rightarrow> error + jsval list" where
  "withFrom addr params =
     (if params = [] then Inr [JObj [(''from'', JStr addr)]]
      else case last params of
        JNull \<Rightarrow> Inl TypeError
      | JBN n \<Rightarrow> Inr params
      | JObj props \<Rightarrow>
          (case map_of props ''from'' of
             None \<Rightarrow> Inr (butlast params @ [JObj (AList.update ''from'' (JStr addr) props)])
           | Some v \<Rightarrow>
               if nullish v
               then Inr (butlast params @ [JObj (AList.update ''from'' (JStr addr) props)])
               else Inr (params @ [JObj [(''from'', JStr addr)]]))
      | _ \<Rightarrow> Inr (params @ [JObj [(''from'', JStr addr)]]))"

text \<open>\<open>exc.receipt\<close> of a caught failure.\<close>

fun receipt_of :: "error \<Rightarrow> receipt option" where
  "receipt_of (Rejected msg r) = r"
| "receipt_of _ = None"

text \<open>
  An operation is the contract method handed to \<open>call\<close>: run on the parameters, it
  changes the ledger and resolves to a result or is rejected.
\<close>

type_synonym 'w operation = "jsval list \<Rightarrow> 'w \<Rightarrow> (error + txresult) \<times> 'w"

text \<open>
  The wallet monitor of \<open>S.wallets.<name>.call(S, contractMethod, ...params)\<close> is the
  entry \<open>name\<close> of the aggregator's own wallet group, so the aggregator's check and the
  call's gas bookkeeping act on one object. Only a wallet monitor has the method: calling
  it on a missing entry or on a monitor of another class is a \<open>TypeError\<close>.
  \<open>record_gas\<close> is \<open>this.expectGas(...)\<close> on that entry.

  \<open>caught\<close> is the \<open>catch (exc)\<close> block, entered by a failure of the operation, of
  \<open>gasForCall\<close> or of \<open>expectGas\<close> inside \<open>try\<close>.
\<close>

definition record_gas ::
    "'w host \<Rightarrow> 'w dappstate \<Rightarrow> string \<Rightarrow> 'w monitor \<Rightarrow> int \<Rightarrow> error + 'w dappstate" where
  "record_gas H s name this gasAmount =
     (case expectGas H this gasAmount of
        Inl e \<Rightarrow> Inl e
      | Inr this' \<Rightarrow> Inr (s\<lparr>wallets := AList.update name this' (wallets s)\<rparr>))"

definition caught ::
    "'w host \<Rightarrow> 'w dappstate \<Rightarrow> string \<Rightarrow> 'w monitor \<Rightarrow> error \<Rightarrow> 'w
       \<Rightarrow> (error + txresult) \<times> 'w dappstate \<times> 'w" where
  "caught H s name this exc w =
     (case receipt_of exc of
        None \<Rightarrow> (Inl exc, s, w)
      | Some r \<Rightarrow>
          (case gasForReceipt H (Some r) w of
             Inl e \<Rightarrow> (Inl e, s, w)
           | Inr gasPrice \<Rightarrow>
               (case record_gas H s name this gasPrice of
                  Inl e \<Rightarrow> (Inl e, s, w)
                | Inr s' \<Rightarrow> (Inl exc, s', w))))"

definition attempt ::
    "'w host \<Rightarrow> 'w dappstate \<Rightarrow> string \<Rightarrow> 'w monitor \<Rightarrow> 'w operation \<Rightarrow> jsval list \<Rightarrow> 'w
       \<Rightarrow> (error + txresult) \<times> 'w dappstate \<times> 'w" where
  "attempt H s name this contractMethod params w =
     (case contractMethod params w of
        (Inl exc, w') \<Rightarrow> caught H s name this exc w'
      | (Inr res, w') \<Rightarrow>
          (case gasForCall H res w' of
             Inl exc \<Rightarrow> caught H s name this exc w'
           | Inr gasCost \<Rightarrow>
               (case record_gas H s name this gasCost of
                  Inl exc \<Rightarrow> caught H s name this exc w'
                | Inr s' \<Rightarrow> (Inr res, s', w'))))"

definition call ::
    "'w host \<Rightarrow> 'w dappstate \<Rightarrow> string \<Rightarrow> 'w operation \<Rightarrow> jsval list \<Rightarrow> 'w
       \<Rightarrow> (error + txresult) \<times> 'w dappstate \<times> 'w" where
  "call H s name contractMethod params w =
     (case map_of (wallets s) name of
        None \<Rightarrow> (Inl TypeError, s, w)
      | Some caller \<Rightarrow>
          if kind caller \<noteq> EthWallet then (Inl TypeError, s, w) else
          (case DappState_checkDirty H s w of
             (Some e, s1) \<Rightarrow> (Inl e, s1, w)
           | (None, s1) \<Rightarrow>
               (case assertNoExceptions s1 of
                  Inl e \<Rightarrow> (Inl e, s1, w)
                | Inr _ \<Rightarrow>
                    (case map_of (wallets s1) name of
                       None \<Rightarrow> (Inl TypeError, s1, w)
                     | Some this \<Rightarrow>
                         (case withFrom (address this) params of
                            Inl e \<Rightarrow> (Inl e, s1, w)
                          | Inr params' \<Rightarrow>
                              (case asBN H (JNum (Finite 0)) of
                                 Inl e \<Rightarrow> (Inl e, s1, w)
                               | Inr gasCost \<Rightarrow>
                                   attempt H s1 name this contractMethod params' w))))))"

section \<open>Sequences of monitor operations\<close>

text \<open>
  One step of a test on one monitor: a call of \<open>reset\<close>, \<open>checkDirty\<close> or
  \<open>expect\<close>, with the ledger it runs against. A call that throws has assigned nothing
  before it threw, so it leaves the monitor as it found it.
\<close>

datatype 'w action = Reset jsval 'w | CheckDirty 'w | Expect jsval 'w

fun step :: "'w host \<Rightarrow> 'w monitor \<Rightarrow> 'w action \<Rightarrow> 'w monitor" where
  "step H m (Reset toValue w) =
     (case reset H m toValue w of Inl e \<Rightarrow> m | Inr m' \<Rightarrow> m')"
| "step H m (CheckDirty w) =
     (case checkDirty H m w of Inl e \<Rightarrow> m | Inr (d, m') \<Rightarrow> m')"
| "step H m (Expect v w) =
     (case expect H m v w of Inl e \<Rightarrow> m | Inr m' \<Rightarrow> m')"

definition run :: "'w host \<Rightarrow> 'w monitor \<Rightarrow> 'w action list \<Rightarrow> 'w monitor" where
  "run H m actions = foldl (step H) m actions"

text \<open>
  The invariant of the data model: while \<open>dirty\<close> is set, \<open>dirtyValue\<close> is a value that
  the monitor's \<open>equals\<close> told apart from \<open>lastValue\<close>.
\<close>

definition drift_recorded :: "'w monitor \<Rightarrow> bool" where
  "drift_recorded m = (dirty m \<longrightarrow> equals m (dirtyValue m) (lastValue m) = Inr False)"

section \<open>Auxiliary notions for the proofs\<close>

text \<open>The monitor object after the aggregator has run its check against ledger \<open>w\<close>.\<close>

definition after_check :: "'w host \<Rightarrow> 'w \<Rightarrow> 'w monitor \<Rightarrow> 'w monitor" where
  "after_check H w m = (case checkDirty H m w of Inl e \<Rightarrow> m | Inr (d, m') \<Rightarrow> m')"

text \<open>Whether the check of a group entry returns true, and the entries it makes the loop push.\<close>

definition reports_dirty :: "'w host \<Rightarrow> 'w \<Rightarrow> string \<times> 'w monitor \<Rightarrow> bool" where
  "reports_dirty H w entry =
     (case checkDirty H (snd entry) w of Inl e \<Rightarrow> False | Inr (d, m') \<Rightarrow> d)"

definition pushed_for :: "'w host \<Rightarrow> 'w \<Rightarrow> string \<times> 'w monitor \<Rightarrow> error list" where
  "pushed_for H w entry =
     (case checkDirty H (snd entry) w of
        Inl e \<Rightarrow> []
      | Inr (d, m') \<Rightarrow>
          if d then (case diagnostic H (fst entry) m' of Inl e \<Rightarrow> [] | Inr x \<Rightarrow> [x]) else [])"

text \<open>The gas recorded so far: nothing while \<open>expectedGas\<close> is \<open>null\<close>.\<close>

definition gas_so_far :: "'w monitor \<Rightarrow> int" where
  "gas_so_far m = (case expectedGas m of None \<Rightarrow> 0 | Some gas \<Rightarrow> gas)"

subsection \<open>A concrete ledger\<close>

text \<open>
  A ledger with one account, given by its balance in wei; the gas price is 2. The host
  converts big integers and whole numbers, and prints the two balances used below.
  \<open>sample_wallet\<close> is the wallet monitor of that account with 100 as its last accepted
  balance, \<open>sample_state\<close> the aggregator that owns it under the name alice.
  \<open>sample_transfer\<close> is mined with 1 unit of gas and sends 10 away; \<open>sample_revert\<close>
  is mined but reverted (its failure carries the receipt); \<open>sample_refusal\<close> fails
  without having been mined.
\<close>

definition sample_host :: "int host" where
  "sample_host =
     \<lparr>getBalance = (\<lambda>addr w. Inr (JBN w)),
      getGasPrice = (\<lambda>w. Inr (JBN 2)),
      toBN = (\<lambda>v. case v of JBN n \<Rightarrow> Inr n | JNum (Finite q) \<Rightarrow> Inr \<lfloor>q\<rfloor> | _ \<Rightarrow> Inl TypeError),
      toString = (\<lambda>v. if v = JBN 100 then Inr ''100''
                       else if v = JBN 88 then Inr ''88'' else Inl TypeError),
      stringify = (\<lambda>v. ''{}'')\<rparr>"

definition sample_wallet :: "int monitor" where
  "sample_wallet =
     \<lparr>kind = EthWallet, lastValue = JBN 100, dirty = False, dirtyValue = JNull,
      address = ''0xA11CE'', expectedGas = None, accessor = (\<lambda>w. Inl TypeError),
      keypath = None\<rparr>"

definition sample_field :: "jsval \<Rightarrow> string option \<Rightarrow> int monitor" where
  "sample_field v kp =
     \<lparr>kind = ContractField, lastValue = JNull, dirty = False, dirtyValue = JNull,
      address = [], expectedGas = None, accessor = (\<lambda>w. Inr v), keypath = kp\<rparr>"

definition sample_state :: "int dappstate" where
  "sample_state =
     \<lparr>wallets = [(''alice'', sample_wallet)], erc20 = [], contract = [], exceptions = []\<rparr>"

definition sample_transfer :: "int operation" where
  "sample_transfer params w = (Inr \<lparr>receipt = Some \<lparr>gasUsed = JBN 1\<rparr>\<rparr>, w - 12)"

definition sample_revert :: "int operation" where
  "sample_revert params w = (Inl (Rejected ''revert'' (Some \<lparr>gasUsed = JBN 1\<rparr>)), w - 2)"

definition sample_refusal :: "int operation" where
  "sample_refusal params w = (Inl (Rejected ''not sent'' None), w)"

section \<open>Properties of structural equality\<close>

lemma dynamicEquals_objects:
  "dynamicEquals (JObj keysA) (JObj keysB) =
     (if length keysA \<noteq> length keysB then Inr False else walk keysA keysB)"
  by (simp add: dynamicEquals.simps(1))

lemma dynamicEquals_strings:
  "dynamicEquals (JStr x) (JStr y) = Inr (x = y)"
  by (simp add: dynamicEquals.simps(1))

lemma walk_all_match:
  assumes "\<forall>(key, v) \<in> set keysA. \<not> positional key \<longrightarrow>
             (\<exists>w. map_of keysB key = Some w \<and> dynamicEquals v w = Inr True)"
  shows "walk keysA keysB = Inr True"
  using assms
proof (induction keysA)
  case Nil
  then show ?case by simp
next
  case (Cons entry rest)
  obtain key v where entry: "entry = (key, v)" by (cases entry)
  from Cons.prems have rest: "walk rest keysB = Inr True"
    by (intro Cons.IH) auto
  show ?case
  proof (cases "positional key")
    case True
    with rest entry show ?thesis by simp
  next
    case False
    with Cons.prems entry obtain w
      where "map_of keysB key = Some w" "dynamicEquals v w = Inr True"
      by auto
    with False rest entry show ?thesis by simp
  qed
qed

text \<open>
  Claim C9. Whenever the basic kinds of the two arguments differ (their \<open>typeof\<close> tags, as
  for a number against a structured value), \<open>dynamicEquals\<close> throws the type-mismatch
  error, which names both kinds; it does not return false.
\<close>

theorem dynamicEquals_kind_mismatch:
  "typeof a \<noteq> typeof b \<Longrightarrow> dynamicEquals a b = Inl (TypeMismatch (typeof a) (typeof b))"
  by (simp add: dynamicEquals.simps(1))

theorem dynamicEquals_kind_mismatch_witness:
  "typeof (JNum (Finite 7)) \<noteq> typeof (JObj [(''name'', JStr ''x'')])
   \<and> dynamicEquals (JNum (Finite 7)) (JObj [(''name'', JStr ''x'')])
       = Inl (TypeMismatch ''number'' ''object'')"
  using dynamicEquals_kind_mismatch [of "JNum (Finite 7)" "JObj [(''name'', JStr ''x'')]"]
  by simp

text \<open>
  Claim C1, as stated: \<open>{name: "x", 0: "x"}\<close> and \<open>{name: "x"}\<close> compare equal. They do
  not: \<open>Object.keys\<close> of the first is \<open>["0", "name"]\<close>, of the second \<open>["name"]\<close>, and
  the key counts are compared before the walk that skips positional keys.
\<close>

theorem positional_duplicate_counterexample:
  "dynamicEquals (JObj [(''0'', JStr ''x''), (''name'', JStr ''x'')]) (JObj [(''name'', JStr ''x'')])
     = Inr False"
  by (simp add: dynamicEquals_objects)

text \<open>
  Claim C1, amended. Two structured values with different key counts compare unequal, so
  \<open>{name: "x", 0: "x"}\<close> and \<open>{name: "x"}\<close> do; the positional keys are ignored only
  in the walk that follows the count: \<open>{name: "x", 0: "x"}\<close> compares equal to a value
  with the same two keys whatever that value holds at position \<open>0\<close>.
\<close>

theorem positional_duplicate_counts_as_key:
  "dynamicEquals (JObj [(''0'', JStr ''x''), (''name'', JStr ''x'')]) (JObj [(''name'', JStr ''x'')])
     = Inr False
   \<and> dynamicEquals (JObj [(''0'', JStr ''x''), (''name'', JStr ''x'')])
        (JObj [(''0'', v), (''name'', JStr ''x'')]) = Inr True
   \<and> (length keysA \<noteq> length keysB \<longrightarrow> dynamicEquals (JObj keysA) (JObj keysB) = Inr False)"
  by (simp add: dynamicEquals_objects dynamicEquals_strings positional_def)

theorem positional_duplicate_counts_as_key_witness:
  "length [(''0'', JBN 1), (''1'', JBN 2), (''owner'', JBN 1)] \<noteq> length [(''owner'', JBN 1)]
   \<and> dynamicEquals (JObj [(''0'', JBN 1), (''1'', JBN 2), (''owner'', JBN 1)]) (JObj [(''owner'', JBN 1)])
       = Inr False
   \<and> dynamicEquals (JObj [(''0'', JStr ''x''), (''name'', JStr ''x'')])
       (JObj [(''0'', JStr ''y''), (''name'', JStr ''x'')]) = Inr True"
  using positional_duplicate_counts_as_key
    [of "JStr ''y''" "[(''0'', JBN 1), (''1'', JBN 2), (''owner'', JBN 1)]" "[(''owner'', JBN 1)]"]
  by simp

text \<open>
  Claim C10, as stated: two structured values with the same number of keys that differ only
  in what they hold at positional keys compare equal. Not when an entry under another key
  does not compare equal to itself: \<open>undefined\<close> there makes the comparison throw the
  unsupported-comparison error, and \<open>NaN\<close> there makes it return false.
\<close>

theorem positional_values_counterexample:
  "dynamicEquals (JObj [(''0'', JStr ''p''), (''x'', JUndefined)])
                 (JObj [(''0'', JStr ''q''), (''x'', JUndefined)])
     = Inl (UnsupportedComparison ''undefined'')
   \<and> dynamicEquals (JObj [(''0'', JStr ''p''), (''x'', JNum NaN)])
                   (JObj [(''0'', JStr ''q''), (''x'', JNum NaN)])
     = Inr False"
  by (simp add: dynamicEquals_objects positional_def dynamicEquals.simps(1))

text \<open>
  Claim C10, amended. Two structured values with the same number of keys, where every entry
  of the first under a key other than "0", "1", "2", "3" is an entry of the second with the
  same value, compare equal provided each of those entries compares equal to itself. What
  the two hold at the positional keys is not looked at.
\<close>

theorem positional_values_ignored:
  assumes "length keysA = length keysB"
    and "\<forall>(key, v) \<in> set keysA. \<not> positional key \<longrightarrow> map_of keysB key = Some v"
    and "\<forall>(key, v) \<in> set keysA. \<not> positional key \<longrightarrow> dynamicEquals v v = Inr True"
  shows "dynamicEquals (JObj keysA) (JObj keysB) = Inr True"
proof -
  have "walk keysA keysB = Inr True"
    using assms(2,3) by (intro walk_all_match) fastforce
  with assms(1) show ?thesis by (simp add: dynamicEquals_objects)
qed

theorem positional_values_ignored_witness:
  "length [(''0'', JStr ''p''), (''1'', JBN 5), (''name'', JStr ''x'')]
     = length [(''0'', JStr ''q''), (''1'', JBool True), (''name'', JStr ''x'')]
   \<and> dynamicEquals (JObj [(''0'', JStr ''p''), (''1'', JBN 5), (''name'', JStr ''x'')])
                   (JObj [(''0'', JStr ''q''), (''1'', JBool True), (''name'', JStr ''x'')])
       = Inr True"
  using positional_values_ignored
    [of "[(''0'', JStr ''p''), (''1'', JBN 5), (''name'', JStr ''x'')]"
        "[(''0'', JStr ''q''), (''1'', JBool True), (''name'', JStr ''x'')]"]
  by (simp add: positional_def dynamicEquals_strings)

section \<open>Evaluation on the concrete ledger\<close>

lemmas sample_defs =
  sample_host_def sample_wallet_def sample_state_def sample_transfer_def sample_revert_def
  sample_refusal_def sample_field_def

lemmas monitor_defs =
  fetchValue_def ContractState_fetchValue_def resolveKeypath_def equals_def
  StateMonitor_equals_def checkDirty_def reset_def ETHAddress_reset_def StateMonitor_reset_def
  expect_def StateMonitor_expect_def castNumber_def asBN_def adjustExpectation_def
  expectFallsBy_def expectGas_def serializeValue_def diagnostic_def

lemmas aggregator_defs =
  DappState_checkDirty_def DappState_checkDirty_group_def settle_def settled_monitor_def
  first_failure_def assertNoExceptions_def reports_dirty_def

lemmas call_defs =
  call_def attempt_def caught_def record_gas_def withFrom_def gasForCall_def gasForReceipt_def
  gas_so_far_def

section \<open>Properties of a single monitor\<close>

lemma fetchValue_frame:
  "kind m' = kind m \<Longrightarrow> address m' = address m \<Longrightarrow> accessor m' = accessor m
     \<Longrightarrow> keypath m' = keypath m \<Longrightarrow> fetchValue H m' w = fetchValue H m w"
  by (simp add: fetchValue_def ContractState_fetchValue_def split: mkind.splits sum.splits)

lemma equals_frame: "kind m' = kind m \<Longrightarrow> equals m' a b = equals m a b"
  by (simp add: equals_def)

lemma StateMonitor_reset_result:
  assumes "StateMonitor_reset H m toValue w = Inr m'"
  shows "kind m' = kind m" "address m' = address m" "accessor m' = accessor m"
    "keypath m' = keypath m" "expectedGas m' = expectedGas m"
    "\<not> dirty m'" "dirtyValue m' = JBool False"
    "nullish toValue \<Longrightarrow> fetchValue H m w = Inr (lastValue m')"
    "\<not> nullish toValue \<Longrightarrow> lastValue m' = toValue"
  using assms by (auto simp: StateMonitor_reset_def split: if_splits sum.splits)

lemma reset_result:
  assumes "reset H m toValue w = Inr m'"
  shows "kind m' = kind m" "address m' = address m" "accessor m' = accessor m"
    "keypath m' = keypath m" "\<not> dirty m'" "dirtyValue m' = JBool False"
  using assms StateMonitor_reset_result[of H m _ w]
  by (auto simp: reset_def ETHAddress_reset_def split: mkind.splits sum.splits)

lemma reset_fetches:
  assumes "reset H m JUndefined w = Inr m'"
  shows "fetchValue H m w = Inr (lastValue m')"
  using assms StateMonitor_reset_result(8)[of H m JUndefined w]
  by (auto simp: reset_def ETHAddress_reset_def split: mkind.splits sum.splits)

lemma reset_succeeds:
  assumes "fetchValue H m w = Inr v"
  shows "\<exists>m'. reset H m JUndefined w = Inr m'"
  using assms
  by (auto simp: reset_def ETHAddress_reset_def StateMonitor_reset_def split: mkind.splits sum.splits)

lemma checkDirty_result:
  assumes "checkDirty H m w = Inr (d, m')"
  shows "kind m' = kind m" "lastValue m' = lastValue m" "address m' = address m"
    "accessor m' = accessor m" "keypath m' = keypath m" "expectedGas m' = expectedGas m"
    "dirty m' = d"
    "d \<Longrightarrow> equals m (dirtyValue m') (lastValue m) = Inr False"
    "d \<Longrightarrow> fetchValue H m w = Inr (dirtyValue m')"
    "\<not> d \<Longrightarrow> dirtyValue m' = dirtyValue m"
  using assms by (auto simp: checkDirty_def Let_def split: sum.splits if_splits)

lemma expect_result:
  assumes "expect H m v w = Inr m'"
  shows "\<not> dirty m'" "kind m' = kind m"
proof -
  have "\<exists>tv. reset H m tv w = Inr m'"
    using assms
    by (auto simp: expect_def StateMonitor_expect_def split: mkind.splits sum.splits if_splits)
  then obtain tv where "reset H m tv w = Inr m'" by blast
  from reset_result(5)[OF this] reset_result(1)[OF this]
  show "\<not> dirty m'" "kind m' = kind m" by simp_all
qed

lemma step_drift_recorded:
  assumes "drift_recorded m"
  shows "drift_recorded (step H m a)"
proof (cases a)
  case (Reset tv w)
  then show ?thesis
    using assms reset_result(5)[of H m tv w]
    by (auto simp: drift_recorded_def split: sum.splits)
next
  case (CheckDirty w)
  show ?thesis
  proof (cases "checkDirty H m w")
    case (Inl e)
    with CheckDirty assms show ?thesis by simp
  next
    case (Inr r)
    obtain d m' where r: "r = (d, m')" by (cases r)
    from checkDirty_result[OF Inr[unfolded r]]
    have "dirty m' \<longrightarrow> equals m' (dirtyValue m') (lastValue m') = Inr False"
      by (simp add: equals_frame[of m' m])
    with CheckDirty Inr r show ?thesis by (simp add: drift_recorded_def)
  qed
next
  case (Expect v w)
  then show ?thesis
    using assms expect_result(1)[of H m v w]
    by (auto simp: drift_recorded_def split: sum.splits)
qed

lemma run_drift_recorded:
  "drift_recorded m \<Longrightarrow> drift_recorded (run H m actions)"
  unfolding run_def
  by (induction actions arbitrary: m) (simp_all add: step_drift_recorded)

text \<open>
  Claim C4. Start from a monitor that is not dirty, as the constructor leaves it, and run any
  sequence of \<open>reset\<close>, \<open>checkDirty\<close> and \<open>expect\<close> calls, each against
  any ledger. Whenever \<open>dirty\<close> is true afterwards, \<open>dirtyValue\<close> is a value that
  \<open>equals\<close> reports as not equal to \<open>lastValue\<close>. And a \<open>reset\<close> that
  returns, with or without an explicit value, has set \<open>dirty\<close> to false and cleared
  \<open>dirtyValue\<close> (the source stores \<open>false\<close> in it).
\<close>

theorem dirty_records_drift:
  "(\<not> dirty m \<longrightarrow>
      (dirty (run H m actions) \<longrightarrow>
         equals (run H m actions) (dirtyValue (run H m actions)) (lastValue (run H m actions))
           = Inr False))
   \<and> (reset H m toValue w = Inr m' \<longrightarrow> \<not> dirty m' \<and> dirtyValue m' = JBool False)"
proof (intro conjI impI)
  assume "\<not> dirty m" and "dirty (run H m actions)"
  then show "equals (run H m actions) (dirtyValue (run H m actions)) (lastValue (run H m actions))
           = Inr False"
    using run_drift_recorded[of m H actions] by (simp add: drift_recorded_def)
next
  assume r: "reset H m toValue w = Inr m'"
  from reset_result(5)[OF r] show "\<not> dirty m'" .
  from reset_result(6)[OF r] show "dirtyValue m' = JBool False" .
qed

theorem dirty_records_drift_witness:
  "\<not> dirty sample_wallet
   \<and> dirty (run sample_host sample_wallet [Reset JUndefined 100, CheckDirty 88])
   \<and> equals (run sample_host sample_wallet [Reset JUndefined 100, CheckDirty 88])
        (dirtyValue (run sample_host sample_wallet [Reset JUndefined 100, CheckDirty 88]))
        (lastValue (run sample_host sample_wallet [Reset JUndefined 100, CheckDirty 88]))
       = Inr False
   \<and> (\<exists>m'. reset sample_host sample_wallet JUndefined 88 = Inr m'
          \<and> \<not> dirty m' \<and> dirtyValue m' = JBool False)"
  using dirty_records_drift [where m = sample_wallet and H = sample_host
              and actions = "[Reset JUndefined 100, CheckDirty 88]"
              and toValue = JUndefined and w = 88
              and m' = "sample_wallet\<lparr>lastValue := JBN 88, dirtyValue := JBool False\<rparr>"]
  by (simp add: run_def sample_defs monitor_defs)

text \<open>
  Claim C8. If \<open>fetchValue\<close> returns the same value \<open>v\<close> at a \<open>reset()\<close>
  without explicit value and at the \<open>checkDirty()\<close> that follows it, and the monitor's
  \<open>equals\<close> is reflexive on \<open>v\<close>, then the reset returns and that
  \<open>checkDirty()\<close> returns false and leaves \<open>dirty\<close> false.
\<close>

theorem clean_after_reset:
  assumes "fetchValue H m w = Inr v" and "fetchValue H m w' = Inr v"
    and "equals m v v = Inr True"
  shows "\<exists>m' m''. reset H m JUndefined w = Inr m' \<and> checkDirty H m' w' = Inr (False, m'')
           \<and> \<not> dirty m''"
proof -
  from reset_succeeds[OF assms(1)] obtain m' where r: "reset H m JUndefined w = Inr m'" by blast
  from reset_fetches[OF r] assms(1) have lv: "lastValue m' = v" by simp
  have f: "fetchValue H m' w' = Inr v"
    using reset_result(1-4)[OF r] assms(2) by (simp add: fetchValue_frame[of m' m])
  have e: "equals m' v v = Inr True"
    using reset_result(1)[OF r] assms(3) by (simp add: equals_frame[of m' m])
  have "checkDirty H m' w' = Inr (False, m'\<lparr>dirty := False\<rparr>)"
    using f e lv by (simp add: checkDirty_def)
  with r show ?thesis by auto
qed

theorem clean_after_reset_witness:
  "\<exists>m' m''. reset sample_host sample_wallet JUndefined 100 = Inr m'
      \<and> checkDirty sample_host m' 100 = Inr (False, m'') \<and> \<not> dirty m''"
  using clean_after_reset [of sample_host sample_wallet 100 "JBN 100" 100]
  by (simp add: sample_defs fetchValue_def equals_def StateMonitor_equals_def)

text \<open>
  Claim C7. A contract monitor whose accessor returns \<open>{a: {b: x}}\<close> (\<open>x\<close> neither
  \<open>null\<close> nor \<open>undefined\<close>; 42 in the claim) fetches \<open>x\<close> under the keypath
  "a.b"; under "a.c" the fetch fails with the resolution error whose message names the
  segment \<open>c\<close>, the first one that yields \<open>undefined\<close>.
\<close>

theorem keypath_resolution:
  assumes "kind m = ContractField"
    and "accessor m w = Inr (JObj [(''a'', JObj [(''b'', x)])])"
    and "\<not> nullish x"
  shows "(keypath m = Some ''a.b'' \<longrightarrow> fetchValue H m w = Inr x)
       \<and> (keypath m = Some ''a.c'' \<longrightarrow>
            fetchValue H m w = Inl (Error ''Error resolving keypath(a.c) - Got undefined at .c''))"
  using assms
  by (simp add: fetchValue_def ContractState_fetchValue_def resolveKeypath_def)

theorem keypath_resolution_witness:
  "fetchValue sample_host
     (sample_field (JObj [(''a'', JObj [(''b'', JNum (Finite 42))])]) (Some ''a.b'')) 0
     = Inr (JNum (Finite 42))
   \<and> fetchValue sample_host
     (sample_field (JObj [(''a'', JObj [(''b'', JNum (Finite 42))])]) (Some ''a.c'')) 0
     = Inl (Error ''Error resolving keypath(a.c) - Got undefined at .c'')"
  using keypath_resolution [of "sample_field (JObj [(''a'', JObj [(''b'', JNum (Finite 42))])]) (Some ''a.b'')"
              0 "JNum (Finite 42)" sample_host]
        keypath_resolution [of "sample_field (JObj [(''a'', JObj [(''b'', JNum (Finite 42))])]) (Some ''a.c'')"
              0 "JNum (Finite 42)" sample_host]
  by (simp add: sample_field_def)

section \<open>Properties of the aggregator and of calls\<close>

lemma after_check_frame:
  "kind (after_check H w m) = kind m" 
  "lastValue (after_check H w m) = lastValue m"
  "address (after_check H w m) = address m"
  "accessor (after_check H w m) = accessor m"
  "keypath (after_check H w m) = keypath m"
  "expectedGas (after_check H w m) = expectedGas m"
  by (auto simp: after_check_def checkDirty_def Let_def split: sum.splits)

lemma settled_monitor_settle:
  "settled_monitor (settle H w entry) = (fst entry, after_check H w (snd entry))"
  by (simp add: settled_monitor_def settle_def after_check_def)

lemma group_monitors:
  "DappState_checkDirty_group H entries w excs = (failed, entries', excs')
     \<Longrightarrow> entries' = map (\<lambda>entry. (fst entry, after_check H w (snd entry))) entries"
  by (auto simp: DappState_checkDirty_group_def Let_def settled_monitor_settle split: prod.splits)

lemma map_of_after:
  "map_of (map (\<lambda>entry. (fst entry, f (snd entry))) entries) name
     = map_option f (map_of entries name)"
  by (induction entries) auto

lemma checkDirty_wallets:
  assumes "DappState_checkDirty H s w = (failed, s1)"
  shows "map_of (wallets s1) name = map_option (after_check H w) (map_of (wallets s) name)"
proof -
  obtain f1 ws e1 where g: "DappState_checkDirty_group H (wallets s) w (exceptions s) = (f1, ws, e1)"
    by (cases "DappState_checkDirty_group H (wallets s) w (exceptions s)")
  from assms g have "wallets s1 = ws"
    by (auto simp: DappState_checkDirty_def Let_def split: prod.splits)
  with group_monitors[OF g] show ?thesis by (simp add: map_of_after)
qed

lemma report_keeps:
  "excs \<noteq> [] \<Longrightarrow> snd (report H settled excs) \<noteq> []"
  by (induction H settled excs rule: report.induct) (auto split: sum.splits prod.splits)


lemma report_drift:
  assumes "(key, m, r) \<in> set settled" and "\<forall>m'. r \<noteq> Inr (False, m')"
  shows "fst (report H settled excs) \<noteq> None \<or> snd (report H settled excs) \<noteq> []"
  using assms(1)
proof (induction settled arbitrary: excs)
  case Nil
  then show ?case by simp
next
  case (Cons t rest)
  obtain k' m' r' where t: "t = (k', m', r')" by (cases t)
  show ?case
  proof (cases r')
    case (Inl e)
    with t show ?thesis by simp
  next
    case (Inr p)
    obtain d m'' where p: "p = (d, m'')" by (cases p)
    show ?thesis
    proof (cases d)
      case True
      show ?thesis
      proof (cases "diagnostic H k' m''")
        case (Inl e)
        with t Inr p True show ?thesis by simp
      next
        case (Inr entry)
        have "snd (report H rest (excs @ [entry])) \<noteq> []"
          by (rule report_keeps) simp
        with t \<open>r' = Inr p\<close> p True Inr show ?thesis by simp
      qed
    next
      case False
      with Inr p assms(2) have "r \<noteq> r'" by auto
      with Cons.prems t have "(key, m, r) \<in> set rest" by auto
      from Cons.IH[OF this, of excs] t Inr p False show ?thesis by simp
    qed
  qed
qed

lemma group_drift:
  assumes "(key, m) \<in> set entries" and "\<forall>m'. checkDirty H m w \<noteq> Inr (False, m')"
    and "DappState_checkDirty_group H entries w excs = (failed, entries', excs')"
  shows "failed \<noteq> None \<or> excs' \<noteq> []"
proof -
  have "(key, m, checkDirty H m w) \<in> set (map (settle H w) entries)"
    using assms(1) by (force simp: settle_def)
  from report_drift[OF this assms(2), of H excs] assms(3)
  show ?thesis
    by (auto simp: DappState_checkDirty_group_def Let_def split: prod.splits)
qed

lemma group_keeps:
  assumes "excs \<noteq> []"
    and "DappState_checkDirty_group H entries w excs = (failed, entries', excs')"
  shows "excs' \<noteq> []"
  using report_keeps[OF assms(1), of H "map (settle H w) entries"] assms(2)
  by (auto simp: DappState_checkDirty_group_def Let_def split: prod.splits)

lemma first_failure_None:
  "first_failure x y = None \<longleftrightarrow> x = None \<and> y = None"
  by (cases x) (simp_all add: first_failure_def)

lemma checkDirty_drift:
  assumes "(key, m) \<in> set (wallets s @ erc20 s @ contract s)"
    and "\<forall>m'. checkDirty H m w \<noteq> Inr (False, m')"
    and "DappState_checkDirty H s w = (failed, s1)"
  shows "failed \<noteq> None \<or> exceptions s1 \<noteq> []"
proof -
  obtain f1 ws e1 where g1: "DappState_checkDirty_group H (wallets s) w (exceptions s) = (f1, ws, e1)"
    by (cases "DappState_checkDirty_group H (wallets s) w (exceptions s)")
  obtain f2 ts e2 where g2: "DappState_checkDirty_group H (erc20 s) w e1 = (f2, ts, e2)"
    by (cases "DappState_checkDirty_group H (erc20 s) w e1")
  obtain f3 cs e3 where g3: "DappState_checkDirty_group H (contract s) w e2 = (f3, cs, e3)"
    by (cases "DappState_checkDirty_group H (contract s) w e2")
  from assms(3) g1 g2 g3 have res: "failed = first_failure f1 (first_failure f2 f3)" "exceptions s1 = e3"
    by (auto simp: DappState_checkDirty_def)
  from assms(1) consider "(key, m) \<in> set (wallets s)" | "(key, m) \<in> set (erc20 s)"
    | "(key, m) \<in> set (contract s)" by auto
  then have "f1 \<noteq> None \<or> f2 \<noteq> None \<or> f3 \<noteq> None \<or> e3 \<noteq> []"
  proof cases
    case 1
    from group_drift[OF 1 assms(2) g1] group_keeps[OF _ g2] group_keeps[OF _ g3]
    show ?thesis by blast
  next
    case 2
    from group_drift[OF 2 assms(2) g2] group_keeps[OF _ g3]
    show ?thesis by blast
  next
    case 3
    from group_drift[OF 3 assms(2) g3] show ?thesis by blast
  qed
  with res show ?thesis by (auto simp: first_failure_None)
qed

lemma drift_checkDirty:
  assumes "fetchValue H m w = Inr v" and "equals m v (lastValue m) \<noteq> Inr True"
  shows "\<forall>m'. checkDirty H m w \<noteq> Inr (False, m')"
  using assms by (auto simp: checkDirty_def Let_def split: sum.splits)

text \<open>
  Claim C3. Let some monitor of the aggregator, in any group, have a live value that its
  \<open>equals\<close> does not report as equal to its \<open>lastValue\<close>. Then \<open>call\<close>
  through any wallet monitor fails, with an error and a state that are the same for every
  operation and every parameter list, and with the ledger untouched: the operation is not
  run.
\<close>

theorem call_rejected_while_dirty:
  assumes "(key, m) \<in> set (wallets s @ erc20 s @ contract s)"
    and "fetchValue H m w = Inr v"
    and "equals m v (lastValue m) \<noteq> Inr True"
  shows "\<exists>e s'. \<forall>contractMethod params. call H s name contractMethod params w = (Inl e, s', w)"
proof (cases "map_of (wallets s) name")
  case None
  then show ?thesis by (simp add: call_def)
next
  case (Some caller)
  show ?thesis
  proof (cases "kind caller = EthWallet")
    case False
    with Some show ?thesis by (simp add: call_def)
  next
    case True
    obtain failed s1 where c: "DappState_checkDirty H s w = (failed, s1)"
      by (cases "DappState_checkDirty H s w")
    from checkDirty_drift[OF assms(1) drift_checkDirty[OF assms(2,3)] c]
    have d: "failed \<noteq> None \<or> exceptions s1 \<noteq> []" .
    show ?thesis
    proof (cases failed)
      case None
      with d have "exceptions s1 \<noteq> []" by simp
      with Some True c None show ?thesis by (simp add: call_def assertNoExceptions_def)
    next
      case (Some e)
      with \<open>map_of (wallets s) name = Some caller\<close> True c show ?thesis
        by (simp add: call_def)
    qed
  qed
qed

theorem call_rejected_while_dirty_witness:
  "(''alice'', sample_wallet)
      \<in> set (wallets sample_state @ erc20 sample_state @ contract sample_state)
   \<and> fetchValue sample_host sample_wallet 88 = Inr (JBN 88)
   \<and> equals sample_wallet (JBN 88) (lastValue sample_wallet) \<noteq> Inr True
   \<and> (\<exists>e s'. \<forall>contractMethod params.
          call sample_host sample_state ''alice'' contractMethod params 88 = (Inl e, s', 88))"
  using call_rejected_while_dirty [of "''alice''" sample_wallet sample_state sample_host 88 "JBN 88" "''alice''"]
  by (simp add: sample_defs fetchValue_def equals_def StateMonitor_equals_def)

lemma expectGas_result:
  assumes "toBN H (JNum (Finite 0)) = Inr 0"
  shows "expectGas H m g = Inr (m\<lparr>expectedGas := Some (gas_so_far m + g)\<rparr>)"
  using assms by (simp add: expectGas_def gas_so_far_def split: option.splits)

lemma record_gas_result:
  assumes "toBN H (JNum (Finite 0)) = Inr 0"
  shows "record_gas H s name m g
     = Inr (s\<lparr>wallets := AList.update name (m\<lparr>expectedGas := Some (gas_so_far m + g)\<rparr>) (wallets s)\<rparr>)"
  by (simp add: record_gas_def expectGas_result[OF assms])

lemma call_reaches_attempt:
  assumes "map_of (wallets s) name = Some m" and "kind m = EthWallet"
    and "DappState_checkDirty H s w = (None, s1)" and "exceptions s1 = []"
    and "withFrom (address m) params = Inr params'"
    and "toBN H (JNum (Finite 0)) = Inr 0"
  shows "call H s name contractMethod params w
     = attempt H s1 name (after_check H w m) contractMethod params' w"
proof -
  have self: "map_of (wallets s1) name = Some (after_check H w m)"
    using checkDirty_wallets[OF assms(3), of name] assms(1) by simp
  have z: "asBN H (JNum (Finite 0)) = Inr (JBN 0)"
    using assms(6) by (simp add: asBN_def)
  show ?thesis
    using assms(1-5) self z
    by (simp add: call_def assertNoExceptions_def after_check_frame)
qed

text \<open>
  Claim C6. Let the aggregator pass the check at the start of a wallet monitor's
  \<open>call\<close>, and let the
  executed operation fail with \<open>exc\<close>. If \<open>exc\<close> carries a receipt whose gas cost
  is computed as \<open>g\<close>, the call re-raises \<open>exc\<close> with \<open>g\<close> added to the
  wallet monitor's \<open>expectedGas\<close>; if \<open>exc\<close> carries no receipt, the call
  re-raises \<open>exc\<close> and \<open>expectedGas\<close> is what it was. (\<open>toBN(0)\<close> is taken to
  be zero.)
\<close>

theorem failed_call_records_gas:
  assumes "map_of (wallets s) name = Some m" and "kind m = EthWallet"
    and "DappState_checkDirty H s w = (None, s1)" and "exceptions s1 = []"
    and "withFrom (address m) params = Inr params'"
    and "toBN H (JNum (Finite 0)) = Inr 0"
    and "contractMethod params' w = (Inl exc, w')"
  shows "(receipt_of exc = Some r \<and> gasForReceipt H (Some r) w' = Inr g \<longrightarrow>
            (\<exists>s' this'. call H s name contractMethod params w = (Inl exc, s', w')
               \<and> map_of (wallets s') name = Some this'
               \<and> expectedGas this' = Some (gas_so_far m + g)))
       \<and> (receipt_of exc = None \<longrightarrow>
            (\<exists>this'. call H s name contractMethod params w = (Inl exc, s1, w')
               \<and> map_of (wallets s1) name = Some this'
               \<and> expectedGas this' = expectedGas m))"
proof (intro conjI impI)
  assume a: "receipt_of exc = Some r \<and> gasForReceipt H (Some r) w' = Inr g"
  let ?self = "after_check H w m"
  let ?s' = "s1\<lparr>wallets := AList.update name (?self\<lparr>expectedGas := Some (gas_so_far ?self + g)\<rparr>) (wallets s1)\<rparr>"
  have "call H s name contractMethod params w = (Inl exc, ?s', w')"
    using a assms(7)
    by (simp add: call_reaches_attempt[OF assms(1-6)] attempt_def caught_def
        record_gas_result[OF assms(6)])
  moreover have "map_of (wallets ?s') name = Some (?self\<lparr>expectedGas := Some (gas_so_far ?self + g)\<rparr>)"
    by (simp add: update_conv')
  moreover have "gas_so_far ?self = gas_so_far m"
    by (simp add: gas_so_far_def after_check_frame)
  ultimately show "\<exists>s' this'. call H s name contractMethod params w = (Inl exc, s', w')
               \<and> map_of (wallets s') name = Some this'
               \<and> expectedGas this' = Some (gas_so_far m + g)"
    by (intro exI[of _ ?s'] exI[of _ "?self\<lparr>expectedGas := Some (gas_so_far ?self + g)\<rparr>"]) simp
next
  assume a: "receipt_of exc = None"
  have "call H s name contractMethod params w = (Inl exc, s1, w')"
    using a assms(7)
    by (simp add: call_reaches_attempt[OF assms(1-6)] attempt_def caught_def)
  moreover have "map_of (wallets s1) name = Some (after_check H w m)"
    using checkDirty_wallets[OF assms(3), of name] assms(1) by simp
  ultimately show "\<exists>this'. call H s name contractMethod params w = (Inl exc, s1, w')
               \<and> map_of (wallets s1) name = Some this'
               \<and> expectedGas this' = expectedGas m"
    by (simp add: after_check_frame)
qed

theorem failed_call_records_gas_witness:
  "(\<exists>s' this'. call sample_host sample_state ''alice'' sample_revert [] 100
        = (Inl (Rejected ''revert'' (Some \<lparr>gasUsed = JBN 1\<rparr>)), s', 98)
      \<and> map_of (wallets s') ''alice'' = Some this' \<and> expectedGas this' = Some 2)
   \<and> (\<exists>this'. call sample_host sample_state ''alice'' sample_refusal [] 100
        = (Inl (Rejected ''not sent'' None), sample_state, 100)
      \<and> map_of (wallets sample_state) ''alice'' = Some this' \<and> expectedGas this' = None)"
  using failed_call_records_gas [where s = sample_state and name = "''alice''" and m = sample_wallet
              and H = sample_host and w = 100 and ?s1.0 = sample_state and params = "[]"
              and params' = "[JObj [(''from'', JStr ''0xA11CE'')]]"
              and contractMethod = sample_revert
              and exc = "Rejected ''revert'' (Some \<lparr>gasUsed = JBN 1\<rparr>)" and w' = 98
              and r = "\<lparr>gasUsed = JBN 1\<rparr>" and g = 2]
        failed_call_records_gas [where s = sample_state and name = "''alice''" and m = sample_wallet
              and H = sample_host and w = 100 and ?s1.0 = sample_state and params = "[]"
              and params' = "[JObj [(''from'', JStr ''0xA11CE'')]]"
              and contractMethod = sample_refusal
              and exc = "Rejected ''not sent'' None" and w' = 100
              and r = "\<lparr>gasUsed = JBN 1\<rparr>" and g = 2]
  by (simp add: sample_defs monitor_defs aggregator_defs call_defs)

lemma report_pushed:
  assumes "\<forall>entry \<in> set entries. \<exists>d m'. checkDirty H (snd entry) w = Inr (d, m')"
    and "\<forall>entry \<in> set entries. \<forall>m'. checkDirty H (snd entry) w = Inr (True, m')
           \<longrightarrow> (\<exists>x. diagnostic H (fst entry) m' = Inr x)"
  shows "report H (map (settle H w) entries) excs
           = (None, excs @ concat (map (pushed_for H w) entries))"
  using assms
proof (induction entries arbitrary: excs)
  case Nil
  then show ?case by simp
next
  case (Cons entry rest)
  from Cons.prems(1) obtain d m' where c: "checkDirty H (snd entry) w = Inr (d, m')" by auto
  have IH: "\<And>excs. report H (map (settle H w) rest) excs
           = (None, excs @ concat (map (pushed_for H w) rest))"
    using Cons.prems by (intro Cons.IH) auto
  have st: "settle H w entry = (fst entry, snd entry, Inr (d, m'))"
    using c by (simp add: settle_def)
  show ?case
  proof (cases d)
    case True
    with c Cons.prems(2) obtain x where x: "diagnostic H (fst entry) m' = Inr x" by auto
    have "pushed_for H w entry = [x]"
      using c True x by (simp add: pushed_for_def)
    with st True x IH show ?thesis by simp
  next
    case False
    have "pushed_for H w entry = []"
      using c False by (simp add: pushed_for_def)
    with st False IH show ?thesis by simp
  qed
qed

lemma group_pushed:
  assumes "\<forall>entry \<in> set entries. \<exists>d m'. checkDirty H (snd entry) w = Inr (d, m')"
    and "\<forall>entry \<in> set entries. \<forall>m'. checkDirty H (snd entry) w = Inr (True, m')
           \<longrightarrow> (\<exists>x. diagnostic H (fst entry) m' = Inr x)"
  shows "\<exists>entries'. DappState_checkDirty_group H entries w excs
           = (None, entries', excs @ concat (map (pushed_for H w) entries))"
  by (simp add: DappState_checkDirty_group_def report_pushed[OF assms])

lemma pushed_only_dirty:
  "concat (map (pushed_for H w) entries)
     = concat (map (pushed_for H w) (filter (reports_dirty H w) entries))"
  by (induction entries) (auto simp: pushed_for_def reports_dirty_def split: sum.splits)

text \<open>
  Claim C5, as stated: when exactly one monitor reports dirty and every fetch succeeds, the
  list \<open>exceptions\<close> holds exactly one entry after the aggregator's
  \<open>checkDirty()\<close>. Not when the list held entries before: \<open>checkDirty()\<close> only
  pushes, so a second run over the same drift leaves two entries.
\<close>

theorem single_drift_counterexample:
  "\<exists>s1 s2. DappState_checkDirty sample_host sample_state 88 = (None, s1)
      \<and> map fst (wallets s1 @ erc20 s1 @ contract s1) = [''alice'']
      \<and> DappState_checkDirty sample_host s1 88 = (None, s2)
      \<and> exceptions s2 =
          [Error ''eth-wallet.alice: un-asserted state change detected (100) => (88)'',
           Error ''eth-wallet.alice: un-asserted state change detected (100) => (88)'']"
  by (simp add: sample_defs monitor_defs aggregator_defs)

text \<open>
  Claim C5, amended. When every monitor's check succeeds and exactly one entry, \<open>M\<close>
  under the name \<open>key\<close>, reports dirty, the aggregator's \<open>checkDirty()\<close> succeeds
  and appends exactly one entry to \<open>exceptions\<close> (the only entry when the list was
  empty), with the message
  "kind.name: un-asserted state change detected (serialized lastValue) => (serialized dirtyValue)".
\<close>

theorem single_drift_appends_entry:
  assumes "\<forall>entry \<in> set (wallets s @ erc20 s @ contract s).
             \<exists>d m'. checkDirty H (snd entry) w = Inr (d, m')"
    and "filter (reports_dirty H w) (wallets s @ erc20 s @ contract s) = [(key, M)]"
    and "checkDirty H M w = Inr (True, M')"
    and "serializeValue H M' (lastValue M') = Inr lastText"
    and "serializeValue H M' (dirtyValue M') = Inr dirtyText"
  shows "\<exists>s'. DappState_checkDirty H s w = (None, s')
           \<and> exceptions s' = exceptions s @
               [Error (monitor_type (kind M) @ ''.'' @ key
                  @ '': un-asserted state change detected ('' @ lastText @ '') => ('' @ dirtyText @ '')'')]"
proof -
  let ?all = "wallets s @ erc20 s @ contract s"
  let ?entry = "Error (monitor_type (kind M) @ ''.'' @ key
                  @ '': un-asserted state change detected ('' @ lastText @ '') => ('' @ dirtyText @ '')'')"
  have kind: "kind M' = kind M"
    using checkDirty_result(1)[OF assms(3)] .
  have diag: "diagnostic H key M' = Inr ?entry"
    using assms(4,5) kind by (simp add: diagnostic_def)
  have only: "entry = (key, M)" if "entry \<in> set ?all" "checkDirty H (snd entry) w = Inr (True, m')"
    for entry m'
  proof -
    from that have "entry \<in> set (filter (reports_dirty H w) ?all)"
      by (simp add: reports_dirty_def)
    with assms(2) show ?thesis by simp
  qed
  have diags: "\<forall>entry \<in> set ?all. \<forall>m'. checkDirty H (snd entry) w = Inr (True, m')
           \<longrightarrow> (\<exists>x. diagnostic H (fst entry) m' = Inr x)"
  proof (intro ballI allI impI)
    fix entry m'
    assume e: "entry \<in> set ?all" "checkDirty H (snd entry) w = Inr (True, m')"
    from only[OF e] e(2) assms(3) diag show "\<exists>x. diagnostic H (fst entry) m' = Inr x" by simp
  qed
  have pf: "pushed_for H w (key, M) = [?entry]"
    unfolding pushed_for_def using assms(3) diag by simp
  have "concat (map (pushed_for H w) ?all)
      = concat (map (pushed_for H w) (filter (reports_dirty H w) ?all))"
    by (rule pushed_only_dirty)
  also have "\<dots> = concat (map (pushed_for H w) [(key, M)])"
    by (simp only: assms(2))
  also have "\<dots> = pushed_for H w (key, M)" by simp
  finally have pushed: "concat (map (pushed_for H w) ?all) = [?entry]"
    using pf by (rule trans)
  have G: "\<exists>entries'. DappState_checkDirty_group H entries w excs
              = (None, entries', excs @ concat (map (pushed_for H w) entries))"
    if "set entries \<subseteq> set ?all" for entries excs
  proof (rule group_pushed)
    show "\<forall>entry \<in> set entries. \<exists>d m'. checkDirty H (snd entry) w = Inr (d, m')"
      using assms(1) that by blast
    show "\<forall>entry \<in> set entries. \<forall>m'. checkDirty H (snd entry) w = Inr (True, m')
           \<longrightarrow> (\<exists>x. diagnostic H (fst entry) m' = Inr x)"
      using diags that by blast
  qed
  define e1 where "e1 = exceptions s @ concat (map (pushed_for H w) (wallets s))"
  define e2 where "e2 = e1 @ concat (map (pushed_for H w) (erc20 s))"
  define e3 where "e3 = e2 @ concat (map (pushed_for H w) (contract s))"
  obtain ws where g1: "DappState_checkDirty_group H (wallets s) w (exceptions s) = (None, ws, e1)"
    unfolding e1_def using G[of "wallets s" "exceptions s"] by auto
  obtain ts where g2: "DappState_checkDirty_group H (erc20 s) w e1 = (None, ts, e2)"
    unfolding e2_def using G[of "erc20 s" e1] by auto
  obtain cs where g3: "DappState_checkDirty_group H (contract s) w e2 = (None, cs, e3)"
    unfolding e3_def using G[of "contract s" e2] by auto
  have "e3 = exceptions s @ concat (map (pushed_for H w) ?all)"
    by (simp add: e3_def e2_def e1_def)
  with pushed have e3: "e3 = exceptions s @ [?entry]" by (simp only:)
  have "DappState_checkDirty H s w
      = (None, s\<lparr>wallets := ws, erc20 := ts, contract := cs, exceptions := e3\<rparr>)"
    by (simp add: DappState_checkDirty_def g1 g2 g3 first_failure_def)
  with e3 show ?thesis by simp
qed

theorem single_drift_appends_entry_witness:
  "\<exists>s'. DappState_checkDirty sample_host sample_state 88 = (None, s')
      \<and> exceptions s' =
          [Error ''eth-wallet.alice: un-asserted state change detected (100) => (88)'']"
  using single_drift_appends_entry [where s = sample_state and H = sample_host and w = 88 and key = "''alice''"
              and M = sample_wallet
              and M' = "sample_wallet\<lparr>dirty := True, dirtyValue := JBN 88\<rparr>"
              and lastText = "''100''" and dirtyText = "''88''"]
  by (simp add: sample_defs monitor_defs aggregator_defs)

lemma expect_wallet:
  assumes "kind m = EthWallet" and "fetchValue H m w = Inr (JBN actual)"
    and "adjustExpectation m (JBN v) = Inr (JBN expected)"
  shows "expect H m (JBN v) w =
     (if actual = expected
      then Inr (m\<lparr>lastValue := JBN actual, dirty := False, dirtyValue := JBool False,
                  expectedGas := None\<rparr>)
      else Inl (AssertionError (ValidatingState (JBN expected) (JBN actual))))"
  using assms
  by (simp add: expect_def asBN_def StateMonitor_expect_def castNumber_def equals_def
      StateMonitor_equals_def reset_def ETHAddress_reset_def StateMonitor_reset_def)

text \<open>
  Claim C2, as stated: after a mined call through a wallet monitor with last balance 100,
  gas cost \<open>g\<close> and value \<open>v\<close> sent away, \<open>expectFallsBy(v)\<close> succeeds while
  \<open>expect(100 - v)\<close> fails. With \<open>v = 10\<close> and \<open>g = 2\<close> the live balance is 88
  and \<open>expect(90)\<close> succeeds: every expectation goes through
  \<open>adjustExpectation\<close>.
\<close>

theorem gas_compensation_counterexample:
  "\<exists>res s' m' m''.
      call sample_host sample_state ''alice'' sample_transfer [] 100 = (Inr res, s', 88)
    \<and> gasForCall sample_host res 88 = Inr 2
    \<and> map_of (wallets s') ''alice'' = Some m'
    \<and> lastValue m' = JBN 100
    \<and> fetchValue sample_host m' 88 = Inr (JBN (100 - 10 - 2))
    \<and> expect sample_host m' (JBN (100 - 10)) 88 = Inr m''"
  by (simp add: sample_defs monitor_defs aggregator_defs call_defs)

text \<open>
  Claim C2, amended. After such a call the monitor still has \<open>lastValue\<close> 100 and has
  \<open>expectedGas = g\<close>; \<open>adjustExpectation\<close> returns \<open>value - expectedGas\<close> when
  \<open>expectedGas\<close> is set and \<open>value\<close> otherwise; with the live balance at
  \<open>100 - v - g\<close>, both \<open>expectFallsBy(v)\<close> and \<open>expect(100 - v)\<close> succeed.
  A passed expectation resets the monitor, which clears \<open>expectedGas\<close>: after it,
  \<open>expect(100 - v)\<close> fails with an assertion error whenever \<open>g\<close> is not zero.
\<close>

theorem gas_compensation:
  assumes "map_of (wallets s) name = Some m"
    and "kind m = EthWallet" and "lastValue m = JBN 100" and "expectedGas m = None"
    and "DappState_checkDirty H s w = (None, s1)" and "exceptions s1 = []"
    and "withFrom (address m) params = Inr params'"
    and "toBN H (JNum (Finite 0)) = Inr 0"
    and "contractMethod params' w = (Inr res, w')"
    and "gasForCall H res w' = Inr g"
    and "fetchValue H m w' = Inr (JBN (100 - v - g))"
  shows "\<exists>s' m'. call H s name contractMethod params w = (Inr res, s', w')
           \<and> map_of (wallets s') name = Some m'
           \<and> lastValue m' = JBN 100 \<and> expectedGas m' = Some g
           \<and> adjustExpectation m' (JBN x) = Inr (JBN (x - g))
           \<and> adjustExpectation m (JBN x) = Inr (JBN x)
           \<and> (\<exists>m''. expect H m' (JBN (100 - v)) w' = Inr m'')
           \<and> (\<exists>m''. expectFallsBy H m' (JBN v) w' = Inr m''
                 \<and> lastValue m'' = JBN (100 - v - g) \<and> expectedGas m'' = None
                 \<and> (g \<noteq> 0 \<longrightarrow> expect H m'' (JBN (100 - v)) w'
                       = Inl (AssertionError (ValidatingState (JBN (100 - v)) (JBN (100 - v - g))))))"
proof -
  let ?self = "after_check H w m"
  let ?m' = "?self\<lparr>expectedGas := Some g\<rparr>"
  let ?s' = "s1\<lparr>wallets := AList.update name ?m' (wallets s1)\<rparr>"
  let ?m'' = "?m'\<lparr>lastValue := JBN (100 - v - g), dirty := False, dirtyValue := JBool False,
                  expectedGas := None\<rparr>"
  have gsf: "gas_so_far ?self = 0"
    using assms(4) by (simp add: gas_so_far_def after_check_frame)
  have c: "call H s name contractMethod params w = (Inr res, ?s', w')"
    using assms(9,10) gsf
    by (simp add: call_reaches_attempt[OF assms(1,2,5,6,7,8)] attempt_def
        record_gas_result[OF assms(8)])
  have look: "map_of (wallets ?s') name = Some ?m'"
    by (simp add: update_conv')
  have k: "kind ?m' = EthWallet" and lv: "lastValue ?m' = JBN 100"
    using assms(2,3) by (simp_all add: after_check_frame)
  have "fetchValue H ?m' w' = fetchValue H m w'"
    by (rule fetchValue_frame) (simp_all add: after_check_frame)
  with assms(11) have f: "fetchValue H ?m' w' = Inr (JBN (100 - v - g))" by simp
  have adj: "adjustExpectation ?m' (JBN x) = Inr (JBN (x - g))" for x
    using k by (simp add: adjustExpectation_def)
  have adj0: "adjustExpectation m (JBN x) = Inr (JBN x)"
    using assms(2,4) by (simp add: adjustExpectation_def)
  have e1: "expect H ?m' (JBN (100 - v)) w' = Inr ?m''"
    using expect_wallet[OF k f adj] by simp
  have e2: "expectFallsBy H ?m' (JBN v) w' = Inr ?m''"
    using lv e1 by (simp add: expectFallsBy_def asBN_def)
  have k'': "kind ?m'' = EthWallet" using k by simp
  have "fetchValue H ?m'' w' = fetchValue H m w'"
    by (rule fetchValue_frame) (simp_all add: after_check_frame)
  with assms(11) have f'': "fetchValue H ?m'' w' = Inr (JBN (100 - v - g))" by simp
  have adj'': "adjustExpectation ?m'' (JBN (100 - v)) = Inr (JBN (100 - v))"
    using k'' by (simp add: adjustExpectation_def)
  have e3: "g \<noteq> 0 \<longrightarrow> expect H ?m'' (JBN (100 - v)) w'
                       = Inl (AssertionError (ValidatingState (JBN (100 - v)) (JBN (100 - v - g))))"
    using expect_wallet[OF k'' f'' adj''] by simp
  show ?thesis
    apply (rule exI[of _ ?s'], rule exI[of _ ?m'])
    apply (intro conjI)
           apply (rule c)
          apply (rule look)
         apply (rule lv)
        apply simp
       apply (rule adj)
      apply (rule adj0)
     apply (rule exI[of _ ?m''], rule e1)
    apply (rule exI[of _ ?m''])
    apply (intro conjI)
       apply (rule e2)
      apply simp
     apply simp
    apply (rule e3)
    done
qed

theorem gas_compensation_witness:
  "\<exists>s' m'. call sample_host sample_state ''alice'' sample_transfer [] 100
               = (Inr \<lparr>receipt = Some \<lparr>gasUsed = JBN 1\<rparr>\<rparr>, s', 88)
      \<and> map_of (wallets s') ''alice'' = Some m'
      \<and> lastValue m' = JBN 100 \<and> expectedGas m' = Some 2
      \<and> adjustExpectation m' (JBN 90) = Inr (JBN 88)
      \<and> adjustExpectation sample_wallet (JBN 90) = Inr (JBN 90)
      \<and> (\<exists>m''. expect sample_host m' (JBN 90) 88 = Inr m'')
      \<and> (\<exists>m''. expectFallsBy sample_host m' (JBN 10) 88 = Inr m''
            \<and> lastValue m'' = JBN 88 \<and> expectedGas m'' = None
            \<and> expect sample_host m'' (JBN 90) 88
                 = Inl (AssertionError (ValidatingState (JBN 90) (JBN 88))))"
  using gas_compensation [where s = sample_state and name = "''alice''" and m = sample_wallet
              and H = sample_host and w = 100 and ?s1.0 = sample_state and params = "[]"
              and params' = "[JObj [(''from'', JStr ''0xA11CE'')]]"
              and contractMethod = sample_transfer
              and res = "\<lparr>receipt = Some \<lparr>gasUsed = JBN 1\<rparr>\<rparr>" and w' = 88
              and g = 2 and v = 10 and x = 90]
  by (simp add: sample_defs monitor_defs aggregator_defs call_defs)

end
